theory Spec2Isabelle
  imports Main "HOL-Library.Word"
begin

section \<open>The gateway client (motionGateway.ts)\<close>

text \<open>
  Positions are the integer percentages of the protocol, modelled as \<open>int\<close>. The request
  identifier comes from a random source and is a parameter of the model. The socket is
  reduced to what \<open>send\<close> reads of it: whether there is one and whether it is connected.
\<close>

datatype Operation = Close | Open | Stop | StatusQuery

fun operation_code :: "Operation \<Rightarrow> int" where
  "operation_code Close = 0"
| "operation_code Open = 1"
| "operation_code Stop = 2"
| "operation_code StatusQuery = 5"

record write_data =
  operation :: Operation
  targetPosition :: "int option"

record MotionMessage =
  msgType :: string
  msgID :: string
  AccessToken :: "string option"
  mac :: "string option"
  deviceType :: "string option"
  data :: "write_data option"

record MotionGateway =
  socket :: bool
  isConnected :: bool
  accessToken :: string

datatype gateway_error = NotConnected

text \<open>
  \<open>send\<close> throws when there is no connected socket; otherwise the message is handed to
  the socket. The result is the message put on the wire; waiting for the acknowledgment
  is not part of the model.
\<close>

definition send :: "MotionGateway \<Rightarrow> MotionMessage \<Rightarrow> gateway_error + MotionMessage" where
  "send gw message = (if \<not> socket gw \<or> \<not> isConnected gw then Inl NotConnected else Inr message)"

definition default_deviceType :: string where
  "default_deviceType = ''10000000''"

definition writeDevice ::
  "MotionGateway \<Rightarrow> string \<Rightarrow> string \<Rightarrow> Operation \<Rightarrow> int option \<Rightarrow> string \<Rightarrow> gateway_error + MotionMessage"
where
  "writeDevice gw newMsgID mac' operation' targetPosition' deviceType' =
     (let data0 = \<lparr>operation = operation', targetPosition = None\<rparr>;
          data1 = (case targetPosition' of
                     None \<Rightarrow> data0
                   | Some p \<Rightarrow> data0\<lparr>targetPosition := Some (max 0 (min 100 p))\<rparr>);
          message = \<lparr>msgType = ''WriteDevice'', msgID = newMsgID,
                     AccessToken = Some (accessToken gw), mac = Some mac',
                     deviceType = Some deviceType', data = Some data1\<rparr>
      in send gw message)"

definition stop :: "MotionGateway \<Rightarrow> string \<Rightarrow> string \<Rightarrow> gateway_error + MotionMessage" where
  "stop gw newMsgID mac' = writeDevice gw newMsgID mac' Stop None default_deviceType"

definition setPosition ::
  "MotionGateway \<Rightarrow> string \<Rightarrow> string \<Rightarrow> int \<Rightarrow> gateway_error + MotionMessage" where
  "setPosition gw newMsgID mac' position = writeDevice gw newMsgID mac' Close (Some position) default_deviceType"

definition getStatus :: "MotionGateway \<Rightarrow> string \<Rightarrow> string \<Rightarrow> gateway_error + MotionMessage" where
  "getStatus gw newMsgID mac' = writeDevice gw newMsgID mac' StatusQuery None default_deviceType"

section \<open>Token derivation (getAccessToken in motionGateway.ts)\<close>

text \<open>
  A string is the sequence of bytes of its UTF-8 encoding, a buffer is a list of bytes. The
  block cipher comes from the runtime's crypto library: \<open>aes_128_ecb key block\<close> stands
  for \<open>createCipheriv('aes-128-ecb', key, null)\<close> with automatic padding switched off,
  fed one block, \<open>update\<close> and \<open>final\<close> concatenated. It is a parameter of the model.
\<close>

type_synonym byte = "8 word"

definition Buffer_from :: "string \<Rightarrow> byte list" where
  "Buffer_from str = map of_char str"

definition Buffer_alloc :: "nat \<Rightarrow> byte list" where
  "Buffer_alloc n = replicate n 0"

definition subarray :: "nat \<Rightarrow> nat \<Rightarrow> byte list \<Rightarrow> byte list" where
  "subarray start finish buf = take (finish - start) (drop start buf)"

text \<open>\<open>copy source target\<close> is the target after \<open>source.copy(target)\<close>.\<close>

definition copy :: "byte list \<Rightarrow> byte list \<Rightarrow> byte list" where
  "copy source target = take (length target) source @ drop (length source) target"

definition hexDigit :: "nat \<Rightarrow> char" where
  "hexDigit d = ''0123456789abcdef'' ! d"

definition toString_hex :: "byte list \<Rightarrow> string" where
  "toString_hex buf = concat (map (\<lambda>b. [hexDigit (unat b div 16), hexDigit (unat b mod 16)]) buf)"

text \<open>Upper case of the ASCII letters, the only letters a hexadecimal string has.\<close>

definition upperChar :: "char \<Rightarrow> char" where
  "upperChar c =
     (if 97 \<le> (of_char c :: nat) \<and> (of_char c :: nat) \<le> 122
      then char_of ((of_char c :: nat) - 32) else c)"

definition toUpperCase :: "string \<Rightarrow> string" where
  "toUpperCase str = map upperChar str"

definition paddedKey :: "string \<Rightarrow> byte list" where
  "paddedKey key = copy (subarray 0 16 (Buffer_from key)) (Buffer_alloc 16)"

definition paddedToken :: "string \<Rightarrow> byte list" where
  "paddedToken token = copy (Buffer_from token) (Buffer_alloc 16)"

definition getAccessToken :: "(byte list \<Rightarrow> byte list \<Rightarrow> byte list) \<Rightarrow> string \<Rightarrow> string \<Rightarrow> string" where
  "getAccessToken aes_128_ecb key token =
     (let encrypted = aes_128_ecb (paddedKey key) (paddedToken token)
      in toUpperCase (toString_hex encrypted))"

section \<open>The blind accessory (platformAccessory.ts)\<close>

definition POSITION_TOLERANCE :: int where
  "POSITION_TOLERANCE = 2"

definition MAX_MOVEMENT_TIMEOUT :: nat where
  "MAX_MOVEMENT_TIMEOUT = 90000"

definition POLL_INTERVALS :: "nat list" where
  "POLL_INTERVALS =
     [300, 300, 300, 300, 300, 300, 300,
      500, 500, 500, 500, 500, 500,
      1000, 1000, 1000, 1000, 1000,
      2000, 2000, 2000, 2000, 2000,
      5000, 5000, 5000, 5000, 5000, 5000]"

definition protocolToHomeKit :: "int \<Rightarrow> int" where
  "protocolToHomeKit protocolPosition = 100 - protocolPosition"

definition homeKitToProtocol :: "int \<Rightarrow> int" where
  "homeKitToProtocol homeKitPosition = 100 - homeKitPosition"

text \<open>
  The motion states shown to the host. The source writes them as the numbers 0, 1 and 2
  of \<open>POSITION_STATE\<close>.
\<close>

datatype position_state = DECREASING | INCREASING | STOPPED

fun POSITION_STATE :: "position_state \<Rightarrow> nat" where
  "POSITION_STATE DECREASING = 0"
| "POSITION_STATE INCREASING = 1"
| "POSITION_STATE STOPPED = 2"

text \<open>
  Everything the accessory does to the outside is recorded, in order, in a list of
  effects: calls of the gateway's methods for the accessory's own device, updates of the
  host's characteristics, and log lines (with the values they interpolate).
\<close>

datatype gateway_call = CallStop | CallSetPosition int | CallGetStatus

datatype characteristic = CurrentPosition int | TargetPosition int | PositionState position_state

datatype log_level = Debug | Info | Warn | Error

datatype log_message =
    ReachedTarget int
  | MovementTimeout int
  | GatewayReading int bool int
  | Progress int int
  | StopCommand int int
  | StopFailed
  | AlreadyAtTarget
  | CancelingPrevious int
  | StopBeforeNewFailed
  | MoveTo int
  | CommandSent
  | CommandFailed
  | PollFailed

datatype effect =
    Call gateway_call
  | UpdateCharacteristic characteristic
  | Log log_level log_message

text \<open>
  The three closures the class hands to \<open>setTimeout\<close>: the movement deadline, the status
  query after a stop, and one tick of the poll schedule. A pending timer is its handle,
  its delay in milliseconds and its closure.
\<close>

datatype callback = CommandTimeout | StatusAfterStop | PollTick

datatype timer = Timer (handle: nat) (delay: nat) (callback: callback)

text \<open>
  The fields of the class, followed by the part of the runtime the class acts on: the
  timers that are pending, the next fresh timer handle, and the effects so far.
\<close>

record accessory =
  confirmedPosition :: int
  displayPosition :: int
  displayTargetPosition :: int
  displayPositionState :: position_state
  commandInProgress :: bool
  commandTarget :: int
  commandDirection :: position_state
  commandTimeoutTimer :: "nat option"
  pollTimers :: "nat list"
  timers :: "timer list"
  nextHandle :: nat
  effects :: "effect list"

definition initial :: accessory where
  "initial =
     \<lparr>confirmedPosition = 0, displayPosition = 0, displayTargetPosition = 0,
      displayPositionState = STOPPED, commandInProgress = False, commandTarget = 0,
      commandDirection = STOPPED, commandTimeoutTimer = None, pollTimers = [],
      timers = [], nextHandle = 0, effects = []\<rparr>"

definition emit :: "effect \<Rightarrow> accessory \<Rightarrow> accessory" where
  "emit e s = s\<lparr>effects := effects s @ [e]\<rparr>"

definition setTimeout :: "callback \<Rightarrow> nat \<Rightarrow> accessory \<Rightarrow> nat \<times> accessory" where
  "setTimeout cb ms s =
     (nextHandle s,
      s\<lparr>timers := timers s @ [Timer (nextHandle s) ms cb], nextHandle := Suc (nextHandle s)\<rparr>)"

definition clearTimeout :: "nat \<Rightarrow> accessory \<Rightarrow> accessory" where
  "clearTimeout h s = s\<lparr>timers := filter (\<lambda>t. handle t \<noteq> h) (timers s)\<rparr>"

definition hasReachedTarget :: "accessory \<Rightarrow> int \<Rightarrow> bool" where
  "hasReachedTarget s position \<longleftrightarrow> \<bar>position - commandTarget s\<bar> \<le> POSITION_TOLERANCE"

definition clearCommandTimeout :: "accessory \<Rightarrow> accessory" where
  "clearCommandTimeout s =
     (case commandTimeoutTimer s of
        None \<Rightarrow> s
      | Some h \<Rightarrow> (clearTimeout h s)\<lparr>commandTimeoutTimer := None\<rparr>)"

definition cancelPolling :: "accessory \<Rightarrow> accessory" where
  "cancelPolling s = (fold clearTimeout (pollTimers s) s)\<lparr>pollTimers := []\<rparr>"

definition cancelCurrentCommand :: "accessory \<Rightarrow> accessory" where
  "cancelCurrentCommand s = cancelPolling (clearCommandTimeout (s\<lparr>commandInProgress := False\<rparr>))"

definition pushStateToHomeKit :: "accessory \<Rightarrow> accessory" where
  "pushStateToHomeKit s =
     emit (UpdateCharacteristic (PositionState (displayPositionState s)))
       (emit (UpdateCharacteristic (TargetPosition (displayTargetPosition s)))
         (emit (UpdateCharacteristic (CurrentPosition (displayPosition s))) s))"

definition completeCommand :: "int \<Rightarrow> accessory \<Rightarrow> accessory" where
  "completeCommand finalPosition s =
     (let s1 = emit (Log Info (ReachedTarget finalPosition)) s;
          s2 = s1\<lparr>commandInProgress := False, confirmedPosition := finalPosition,
                  displayPosition := finalPosition, displayTargetPosition := finalPosition,
                  displayPositionState := STOPPED\<rparr>;
          s3 = clearCommandTimeout s2;
          s4 = cancelPolling s3
      in pushStateToHomeKit s4)"

text \<open>
  What a call of the gateway does is not decided by the accessory: each call either
  resolves or rejects. The outcomes are inputs of the model. \<open>None\<close> stands for
  \<open>platform.gateway\<close> being null.
\<close>

record gateway_replies =
  stop_resolves :: bool
  setPosition_resolves :: bool
  getStatus_resolves :: bool

text \<open>Three gateways for the examples: one that answers every call, and two that fail one.\<close>

abbreviation all_resolve :: gateway_replies where
  "all_resolve \<equiv> \<lparr>stop_resolves = True, setPosition_resolves = True, getStatus_resolves = True\<rparr>"



definition handleCommandTimeout :: "gateway_replies option \<Rightarrow> accessory \<Rightarrow> accessory" where
  "handleCommandTimeout gateway s =
     (let s1 = emit (Log Warn (MovementTimeout (commandTarget s))) s;
          s2 = s1\<lparr>commandInProgress := False, displayPositionState := STOPPED,
                  displayTargetPosition := displayPosition s1\<rparr>;
          s3 = cancelPolling s2;
          s4 = pushStateToHomeKit s3
      in case gateway of None \<Rightarrow> s4 | Some gw \<Rightarrow> emit (Call CallGetStatus) s4)"

text \<open>
  \<open>updateState\<close> reads one field of the status it is given, \<open>currentPosition\<close>, which is
  the argument here.
\<close>

definition updateState :: "int \<Rightarrow> accessory \<Rightarrow> accessory" where
  "updateState currentPosition s =
     (let gatewayPosition = protocolToHomeKit currentPosition;
          s1 = emit (Log Debug (GatewayReading gatewayPosition (commandInProgress s) (commandTarget s))) s
      in if \<not> commandInProgress s1 then
           pushStateToHomeKit
             (s1\<lparr>confirmedPosition := gatewayPosition, displayPosition := gatewayPosition,
                 displayTargetPosition := gatewayPosition, displayPositionState := STOPPED\<rparr>)
         else if hasReachedTarget s1 gatewayPosition then
           completeCommand gatewayPosition s1
         else
           (let isProgressing =
                  (if commandDirection s1 = INCREASING
                   then gatewayPosition > displayPosition s1
                   else gatewayPosition < displayPosition s1)
            in if isProgressing then
                 (let s2 = s1\<lparr>displayPosition := gatewayPosition\<rparr>;
                      s3 = emit (UpdateCharacteristic (CurrentPosition (displayPosition s2))) s2
                  in emit (Log Debug (Progress (displayPosition s3) (commandTarget s3))) s3)
               else s1))"

fun scheduleTicks :: "nat list \<Rightarrow> nat \<Rightarrow> accessory \<Rightarrow> accessory" where
  "scheduleTicks [] cumulativeDelay s = s"
| "scheduleTicks (interval # rest) cumulativeDelay s =
     (let cumulativeDelay' = cumulativeDelay + interval;
          (timer, s1) = setTimeout PollTick cumulativeDelay' s
      in scheduleTicks rest cumulativeDelay' (s1\<lparr>pollTimers := pollTimers s1 @ [timer]\<rparr>))"

definition schedulePolling :: "accessory \<Rightarrow> accessory" where
  "schedulePolling s = scheduleTicks POLL_INTERVALS 0 (cancelPolling s)"

datatype HAPStatus = SERVICE_COMMUNICATION_FAILURE

text \<open>
  \<open>setTargetPosition\<close> is asynchronous in the source: it waits for the gateway at
  \<open>stop\<close> and at \<open>setPosition\<close>. The model runs one call from its beginning to its end,
  with the outcome of each wait given; no other handler runs in between. The result is
  the thrown status or the normal return, together with the accessory as the call
  leaves it.
\<close>

definition setTargetPosition ::
  "gateway_replies option \<Rightarrow> int \<Rightarrow> accessory \<Rightarrow> (HAPStatus + unit) \<times> accessory" where
  "setTargetPosition gateway targetPosition' s =
     (case gateway of
        None \<Rightarrow> (Inl SERVICE_COMMUNICATION_FAILURE, s)
      | Some gw \<Rightarrow>
         (let currentPos = (if commandInProgress s then displayPosition s else confirmedPosition s)
          in if commandInProgress s \<and> \<bar>targetPosition' - currentPos\<bar> \<le> POSITION_TOLERANCE then
               (let s1 = emit (Log Info (StopCommand targetPosition' currentPos)) s;
                    s2 = cancelCurrentCommand s1;
                    s3 = emit (Call CallStop) s2;
                    s4 = (if stop_resolves gw then s3 else emit (Log Debug StopFailed) s3);
                    s5 = s4\<lparr>displayTargetPosition := currentPos, displayPositionState := STOPPED\<rparr>;
                    s6 = pushStateToHomeKit s5;
                    s7 = snd (setTimeout StatusAfterStop 500 s6)
                in (Inr (), s7))
             else if \<bar>targetPosition' - currentPos\<bar> \<le> POSITION_TOLERANCE then
               (let s1 = emit (Log Debug AlreadyAtTarget) s;
                    s2 = s1\<lparr>displayTargetPosition := targetPosition'\<rparr>
                in (Inr (), pushStateToHomeKit s2))
             else
               (let s1 = (if commandInProgress s then
                            (let a = emit (Log Info (CancelingPrevious targetPosition')) s;
                                 b = cancelCurrentCommand a;
                                 c = emit (Call CallStop) b
                             in if stop_resolves gw then c else emit (Log Debug StopBeforeNewFailed) c)
                          else s);
                    s2 = emit (Log Info (MoveTo targetPosition')) s1;
                    s3 = s2\<lparr>commandInProgress := True, commandTarget := targetPosition',
                            commandDirection :=
                              (if targetPosition' > currentPos then INCREASING else DECREASING)\<rparr>;
                    s4 = s3\<lparr>displayTargetPosition := targetPosition',
                            displayPositionState := commandDirection s3\<rparr>;
                    s5 = pushStateToHomeKit s4;
                    s6 = clearCommandTimeout s5;
                    (timer, s7) = setTimeout CommandTimeout MAX_MOVEMENT_TIMEOUT s6;
                    s8 = s7\<lparr>commandTimeoutTimer := Some timer\<rparr>;
                    protocolPosition = homeKitToProtocol targetPosition';
                    s9 = emit (Call (CallSetPosition protocolPosition)) s8
                in if setPosition_resolves gw then
                     (let s10 = emit (Log Debug CommandSent) s9
                      in (Inr (), schedulePolling s10))
                   else
                     (let s10 = emit (Log Error CommandFailed) s9;
                          s11 = s10\<lparr>commandInProgress := False, displayPositionState := STOPPED,
                                    displayTargetPosition := displayPosition s10\<rparr>;
                          s12 = clearCommandTimeout s11;
                          s13 = pushStateToHomeKit s12
                      in (Inl SERVICE_COMMUNICATION_FAILURE, s13)))))"

text \<open>
  The runtime's side of a timer: when the pending timer with handle \<open>h\<close> fires it leaves
  the pending timers and its closure runs. A handle that is not pending fires nothing.
  The closures are the ones written at the three \<open>setTimeout\<close> calls of the class.
\<close>

definition fireTimer :: "gateway_replies option \<Rightarrow> nat \<Rightarrow> accessory \<Rightarrow> accessory" where
  "fireTimer gateway h s =
     (case find (\<lambda>t. handle t = h) (timers s) of
        None \<Rightarrow> s
      | Some t \<Rightarrow>
         (let s1 = s\<lparr>timers := filter (\<lambda>t. handle t \<noteq> h) (timers s)\<rparr>
          in case callback t of
               CommandTimeout \<Rightarrow>
                 (if commandInProgress s1 then handleCommandTimeout gateway s1 else s1)
             | StatusAfterStop \<Rightarrow>
                 (case gateway of None \<Rightarrow> s1 | Some gw \<Rightarrow> emit (Call CallGetStatus) s1)
             | PollTick \<Rightarrow>
                 (if \<not> commandInProgress s1 then s1
                  else case gateway of
                         None \<Rightarrow> s1
                       | Some gw \<Rightarrow>
                          (let s2 = emit (Call CallGetStatus) s1
                           in if getStatus_resolves gw then s2
                              else emit (Log Debug PollFailed) s2))))"

text \<open>
  What can happen to an accessory: the host sets a target, the gateway reports a status
  (with the protocol position it carries), a pending timer fires.
\<close>

datatype event =
    SetTarget "gateway_replies option" int
  | StatusReading int
  | TimerFires "gateway_replies option" nat

fun step :: "event \<Rightarrow> accessory \<Rightarrow> accessory" where
  "step (SetTarget gateway targetPosition') s = snd (setTargetPosition gateway targetPosition' s)"
| "step (StatusReading currentPosition) s = updateState currentPosition s"
| "step (TimerFires gateway h) s = fireTimer gateway h s"

definition run :: "event list \<Rightarrow> accessory \<Rightarrow> accessory" where
  "run evs s = fold step evs s"

section \<open>Definitions for the proofs\<close>

text \<open>
  The timers one run of the poll schedule creates, starting at cumulative delay \<open>c\<close> and
  handle \<open>n\<close>; the timers the accessory holds a handle of; the effect lists of the
  branches of \<open>setTargetPosition\<close>; and the invariant of the timer bookkeeping: handles
  are fresh and distinct, a pending deadline or poll timer belongs to the command in
  progress and is held by the accessory, and a command in progress has a direction and
  a pending deadline.
\<close>

fun tickTimers :: "nat list \<Rightarrow> nat \<Rightarrow> nat \<Rightarrow> timer list" where
  "tickTimers [] c n = []"
| "tickTimers (i # ivs) c n = Timer n (c + i) PollTick # tickTimers ivs (c + i) (Suc n)"

definition tracked :: "accessory \<Rightarrow> timer \<Rightarrow> bool" where
  "tracked s t \<longleftrightarrow> handle t \<in> set (pollTimers s) \<or> Some (handle t) = commandTimeoutTimer s"

definition pushEffects :: "int \<Rightarrow> int \<Rightarrow> position_state \<Rightarrow> effect list" where
  "pushEffects cur tgt st =
     [UpdateCharacteristic (CurrentPosition cur),
      UpdateCharacteristic (TargetPosition tgt),
      UpdateCharacteristic (PositionState st)]"

definition startEffects :: "gateway_replies \<Rightarrow> int \<Rightarrow> position_state \<Rightarrow> accessory \<Rightarrow> effect list" where
  "startEffects gw target dir s =
     (if commandInProgress s then
        [Log Info (CancelingPrevious target), Call CallStop] @
        (if stop_resolves gw then [] else [Log Debug StopBeforeNewFailed])
      else []) @
     [Log Info (MoveTo target)] @ pushEffects (displayPosition s) target dir @
     [Call (CallSetPosition (100 - target))]"

definition stopEffects :: "gateway_replies \<Rightarrow> int \<Rightarrow> accessory \<Rightarrow> effect list" where
  "stopEffects gw target s =
     [Log Info (StopCommand target (displayPosition s)), Call CallStop] @
     (if stop_resolves gw then [] else [Log Debug StopFailed]) @
     [UpdateCharacteristic (CurrentPosition (displayPosition s)),
      UpdateCharacteristic (TargetPosition (displayPosition s)),
      UpdateCharacteristic (PositionState STOPPED)]"

definition invariant :: "accessory \<Rightarrow> bool" where
  "invariant s \<longleftrightarrow>
     (\<forall>t\<in>set (timers s). handle t < nextHandle s) \<and>
     (\<forall>h\<in>set (pollTimers s). h < nextHandle s) \<and>
     (\<forall>h. commandTimeoutTimer s = Some h \<longrightarrow> h < nextHandle s) \<and>
     distinct (map handle (timers s)) \<and>
     (\<forall>t\<in>set (timers s). callback t = CommandTimeout \<longrightarrow>
        commandInProgress s \<and> commandTimeoutTimer s = Some (handle t) \<and>
        delay t = MAX_MOVEMENT_TIMEOUT) \<and>
     (\<forall>t\<in>set (timers s). callback t = PollTick \<longrightarrow>
        commandInProgress s \<and> handle t \<in> set (pollTimers s)) \<and>
     (commandInProgress s \<longrightarrow>
        commandDirection s \<noteq> STOPPED \<and> (\<exists>t\<in>set (timers s). callback t = CommandTimeout))"

text \<open>The value of an upper-case hexadecimal digit, and the two digits of a byte.\<close>

definition hexValue :: "char \<Rightarrow> nat" where
  "hexValue c = (if 65 \<le> (of_char c :: nat) then (of_char c :: nat) - 55 else (of_char c :: nat) - 48)"

definition hexByte :: "byte \<Rightarrow> string" where
  "hexByte b = [upperChar (hexDigit (unat b div 16)), upperChar (hexDigit (unat b mod 16))]"

section \<open>The operations as state updates\<close>

lemma emit_fields [simp]:
  "confirmedPosition (emit e s) = confirmedPosition s"
  "displayPosition (emit e s) = displayPosition s"
  "displayTargetPosition (emit e s) = displayTargetPosition s"
  "displayPositionState (emit e s) = displayPositionState s"
  "commandInProgress (emit e s) = commandInProgress s"
  "commandTarget (emit e s) = commandTarget s"
  "commandDirection (emit e s) = commandDirection s"
  "commandTimeoutTimer (emit e s) = commandTimeoutTimer s"
  "pollTimers (emit e s) = pollTimers s"
  "timers (emit e s) = timers s"
  "nextHandle (emit e s) = nextHandle s"
  "effects (emit e s) = effects s @ [e]"
  by (simp_all add: emit_def)

lemma fold_clearTimeout:
  "fold clearTimeout hs s = s\<lparr>timers := filter (\<lambda>t. handle t \<notin> set hs) (timers s)\<rparr>"
proof (induction hs arbitrary: s)
  case Nil
  show ?case by simp
next
  case (Cons h hs)
  have "fold clearTimeout (h # hs) s = fold clearTimeout hs (clearTimeout h s)" by simp
  also have "\<dots> = (clearTimeout h s)\<lparr>timers := filter (\<lambda>t. handle t \<notin> set hs) (timers (clearTimeout h s))\<rparr>"
    by (rule Cons.IH)
  also have "\<dots> = s\<lparr>timers := filter (\<lambda>t. handle t \<notin> set (h # hs)) (timers s)\<rparr>"
    by (simp add: clearTimeout_def conj_commute)
  finally show ?case .
qed

lemma cancelPolling_eq:
  "cancelPolling s =
     s\<lparr>pollTimers := [], timers := filter (\<lambda>t. handle t \<notin> set (pollTimers s)) (timers s)\<rparr>"
  by (simp add: cancelPolling_def fold_clearTimeout)

lemma clearCommandTimeout_eq:
  "clearCommandTimeout s =
     s\<lparr>commandTimeoutTimer := None,
       timers := filter (\<lambda>t. Some (handle t) \<noteq> commandTimeoutTimer s) (timers s)\<rparr>"
  by (cases "commandTimeoutTimer s") (simp_all add: clearCommandTimeout_def clearTimeout_def)

lemma pushStateToHomeKit_eq:
  "pushStateToHomeKit s =
     s\<lparr>effects := effects s @
        [UpdateCharacteristic (CurrentPosition (displayPosition s)),
         UpdateCharacteristic (TargetPosition (displayTargetPosition s)),
         UpdateCharacteristic (PositionState (displayPositionState s))]\<rparr>"
  by (simp add: pushStateToHomeKit_def emit_def)

lemma scheduleTicks_eq:
  "scheduleTicks ivs c s =
     s\<lparr>pollTimers := pollTimers s @ map handle (tickTimers ivs c (nextHandle s)),
       timers := timers s @ tickTimers ivs c (nextHandle s),
       nextHandle := nextHandle s + length ivs\<rparr>"
proof (induction ivs arbitrary: c s)
  case Nil
  show ?case by simp
next
  case (Cons i ivs)
  show ?case by (simp add: Cons.IH setTimeout_def Let_def)
qed

lemma tickTimers_handle: "t \<in> set (tickTimers ivs c n) \<Longrightarrow> n \<le> handle t \<and> handle t < n + length ivs"
  by (induction ivs arbitrary: c n) fastforce+

lemma tickTimers_callback: "t \<in> set (tickTimers ivs c n) \<Longrightarrow> callback t = PollTick"
  by (induction ivs arbitrary: c n) auto

lemma tickTimers_distinct: "distinct (map handle (tickTimers ivs c n))"
  by (induction ivs arbitrary: c n) (auto dest: tickTimers_handle)

lemmas normal_forms =
  cancelPolling_eq clearCommandTimeout_eq pushStateToHomeKit_eq scheduleTicks_eq
  cancelCurrentCommand_def completeCommand_def handleCommandTimeout_def schedulePolling_def

lemma invariant_initial: "invariant initial"
  by (simp add: invariant_def initial_def)

lemma invariant_updateState: "invariant s \<Longrightarrow> invariant (updateState p s)"
  unfolding invariant_def updateState_def
  by (auto simp: normal_forms Let_def distinct_map_filter)

lemma find_handle:
  "find (\<lambda>t. handle t = h) ts = Some t \<Longrightarrow> t \<in> set ts \<and> handle t = h"
  by (induction ts) (auto split: if_splits)

lemma distinct_handle_eq:
  "distinct (map handle ts) \<Longrightarrow> t \<in> set ts \<Longrightarrow> u \<in> set ts \<Longrightarrow> handle t = handle u \<Longrightarrow> t = u"
  by (auto simp: distinct_map dest: inj_onD)

lemma invariant_emit [simp]: "invariant (emit e s) = invariant s"
  by (simp add: invariant_def)

lemma invariant_irrelevant [simp]:
  "invariant (s\<lparr>effects := a\<rparr>) = invariant s"
  "invariant (s\<lparr>confirmedPosition := b\<rparr>) = invariant s"
  "invariant (s\<lparr>displayPosition := b\<rparr>) = invariant s"
  "invariant (s\<lparr>displayTargetPosition := b\<rparr>) = invariant s"
  "invariant (s\<lparr>displayPositionState := c\<rparr>) = invariant s"
  "invariant (s\<lparr>commandTarget := b\<rparr>) = invariant s"
  by (simp_all add: invariant_def)

lemma invariant_cong:
  assumes "commandInProgress a = commandInProgress b" "commandDirection a = commandDirection b"
    "commandTimeoutTimer a = commandTimeoutTimer b" "pollTimers a = pollTimers b"
    "timers a = timers b" "nextHandle a = nextHandle b"
  shows "invariant a = invariant b"
  using assms by (simp add: invariant_def)

lemma invariant_pushStateToHomeKit [simp]: "invariant (pushStateToHomeKit s) = invariant s"
  by (simp add: pushStateToHomeKit_eq)

lemma invariant_remove_other:
  assumes inv: "invariant s" and t: "t \<in> set (timers s)" and c: "callback t \<noteq> CommandTimeout"
  shows "invariant (s\<lparr>timers := filter (\<lambda>u. handle u \<noteq> handle t) (timers s)\<rparr>)"
proof -
  have keep: "\<exists>u\<in>set (filter (\<lambda>u. handle u \<noteq> handle t) (timers s)). callback u = CommandTimeout"
    if "commandInProgress s"
  proof -
    from inv that obtain u where u: "u \<in> set (timers s)" "callback u = CommandTimeout"
      by (auto simp: invariant_def)
    from inv have "distinct (map handle (timers s))" by (simp add: invariant_def)
    with u t c have "handle u \<noteq> handle t" by (auto dest: distinct_handle_eq)
    with u show ?thesis by auto
  qed
  from inv have rest:
    "\<forall>t\<in>set (timers s). handle t < nextHandle s"
    "\<forall>h\<in>set (pollTimers s). h < nextHandle s"
    "\<forall>h. commandTimeoutTimer s = Some h \<longrightarrow> h < nextHandle s"
    "distinct (map handle (timers s))"
    "\<forall>t\<in>set (timers s). callback t = CommandTimeout \<longrightarrow>
        commandInProgress s \<and> commandTimeoutTimer s = Some (handle t) \<and>
        delay t = MAX_MOVEMENT_TIMEOUT"
    "\<forall>t\<in>set (timers s). callback t = PollTick \<longrightarrow>
        commandInProgress s \<and> handle t \<in> set (pollTimers s)"
    "commandInProgress s \<longrightarrow> commandDirection s \<noteq> STOPPED"
    by (simp_all add: invariant_def)
  show ?thesis
    unfolding invariant_def using rest keep
    by (simp add: distinct_map_filter) blast
qed

lemma invariant_idle:
  assumes inv: "invariant s"
    and P: "\<forall>t\<in>set (timers s). P t \<longrightarrow> callback t = StatusAfterStop"
    and n: "nextHandle s \<le> n"
    and ps: "\<forall>h\<in>set ps. h < n"
    and x: "\<forall>h. x = Some h \<longrightarrow> h < n"
  shows "invariant (s\<lparr>commandInProgress := False, commandTimeoutTimer := x, pollTimers := ps,
            timers := filter P (timers s), nextHandle := n\<rparr>)"
  using assms unfolding invariant_def
  by (auto simp: distinct_map_filter)

lemma invariant_tracked_handles:
  assumes inv: "invariant s"
    and t: "t \<in> set (timers s)"
    and f: "handle t \<notin> set (pollTimers s) \<and> Some (handle t) \<noteq> commandTimeoutTimer s"
  shows "callback t = StatusAfterStop"
  using assms unfolding invariant_def by (cases "callback t") auto

lemma setTargetPosition_stop:
  assumes "commandInProgress s" and "\<bar>target - displayPosition s\<bar> \<le> 2"
  shows "setTargetPosition (Some gw) target s =
     (Inr (),
      s\<lparr>commandInProgress := False, commandTimeoutTimer := None, pollTimers := [],
        displayTargetPosition := displayPosition s, displayPositionState := STOPPED,
        timers := filter (\<lambda>t. \<not> tracked s t) (timers s)
                    @ [Timer (nextHandle s) 500 StatusAfterStop],
        nextHandle := Suc (nextHandle s),
        effects := effects s @ stopEffects gw target s\<rparr>)"
  using assms
  by (simp add: setTargetPosition_def POSITION_TOLERANCE_def normal_forms Let_def setTimeout_def
      stopEffects_def emit_def tracked_def conj_commute)

lemma setTargetPosition_None: "setTargetPosition None target s = (Inl SERVICE_COMMUNICATION_FAILURE, s)"
  by (simp add: setTargetPosition_def)

lemma setTargetPosition_noop:
  assumes "\<not> commandInProgress s" and "\<bar>target - confirmedPosition s\<bar> \<le> 2"
  shows "setTargetPosition (Some gw) target s =
     (Inr (),
      s\<lparr>displayTargetPosition := target,
        effects := effects s @ [Log Debug AlreadyAtTarget] @
                   pushEffects (displayPosition s) target (displayPositionState s)\<rparr>)"
  using assms
  by (simp add: setTargetPosition_def POSITION_TOLERANCE_def normal_forms Let_def
      pushEffects_def emit_def)

lemma setTargetPosition_start_ok:
  assumes "\<not> \<bar>target - (if commandInProgress s then displayPosition s else confirmedPosition s)\<bar> \<le> 2"
    and "setPosition_resolves gw"
    and "nextHandle s \<notin> set (pollTimers s)"
    and "dir = (if target > (if commandInProgress s then displayPosition s else confirmedPosition s)
                then INCREASING else DECREASING)"
  shows "setTargetPosition (Some gw) target s =
     (Inr (),
      s\<lparr>commandInProgress := True, commandTarget := target, commandDirection := dir,
        displayTargetPosition := target, displayPositionState := dir,
        commandTimeoutTimer := Some (nextHandle s),
        pollTimers := map handle (tickTimers POLL_INTERVALS 0 (Suc (nextHandle s))),
        timers := filter (\<lambda>t. \<not> tracked s t) (timers s)
                    @ [Timer (nextHandle s) MAX_MOVEMENT_TIMEOUT CommandTimeout]
                    @ tickTimers POLL_INTERVALS 0 (Suc (nextHandle s)),
        nextHandle := Suc (nextHandle s) + length POLL_INTERVALS,
        effects := effects s @ startEffects gw target dir s @ [Log Debug CommandSent]\<rparr>)"
  using assms
  by (cases "commandInProgress s")
     (simp_all add: setTargetPosition_def POSITION_TOLERANCE_def normal_forms Let_def setTimeout_def
      startEffects_def pushEffects_def emit_def homeKitToProtocol_def tracked_def conj_commute
      del: tickTimers.simps)

lemma setTargetPosition_start_fail:
  assumes "\<not> \<bar>target - (if commandInProgress s then displayPosition s else confirmedPosition s)\<bar> \<le> 2"
    and "\<not> setPosition_resolves gw"
    and "dir = (if target > (if commandInProgress s then displayPosition s else confirmedPosition s)
                then INCREASING else DECREASING)"
  shows "setTargetPosition (Some gw) target s =
     (Inl SERVICE_COMMUNICATION_FAILURE,
      s\<lparr>commandInProgress := False, commandTarget := target, commandDirection := dir,
        displayTargetPosition := displayPosition s, displayPositionState := STOPPED,
        commandTimeoutTimer := None,
        pollTimers := (if commandInProgress s then [] else pollTimers s),
        timers := filter (\<lambda>t. handle t \<noteq> nextHandle s \<and> Some (handle t) \<noteq> commandTimeoutTimer s \<and>
                     (commandInProgress s \<longrightarrow> handle t \<notin> set (pollTimers s))) (timers s),
        nextHandle := Suc (nextHandle s),
        effects := effects s @ startEffects gw target dir s @ [Log Error CommandFailed] @
                   pushEffects (displayPosition s) (displayPosition s) STOPPED\<rparr>)"
  using assms
  by (cases "commandInProgress s")
     (simp_all add: setTargetPosition_def POSITION_TOLERANCE_def normal_forms Let_def setTimeout_def
      startEffects_def pushEffects_def emit_def homeKitToProtocol_def conj_commute conj_left_commute)

lemma updateState_idle:
  assumes "\<not> commandInProgress s"
  shows "updateState p s =
     s\<lparr>confirmedPosition := 100 - p, displayPosition := 100 - p, displayTargetPosition := 100 - p,
       displayPositionState := STOPPED,
       effects := effects s @ [Log Debug (GatewayReading (100 - p) False (commandTarget s))] @
                  pushEffects (100 - p) (100 - p) STOPPED\<rparr>"
  using assms
  by (simp add: updateState_def protocolToHomeKit_def normal_forms Let_def pushEffects_def emit_def)

lemma updateState_complete:
  assumes "commandInProgress s" and "\<bar>100 - p - commandTarget s\<bar> \<le> 2"
  shows "updateState p s =
     s\<lparr>commandInProgress := False,
       confirmedPosition := 100 - p, displayPosition := 100 - p, displayTargetPosition := 100 - p,
       displayPositionState := STOPPED, commandTimeoutTimer := None, pollTimers := [],
       timers := filter (\<lambda>t. \<not> tracked s t) (timers s),
       effects := effects s @ [Log Debug (GatewayReading (100 - p) True (commandTarget s)),
                    Log Info (ReachedTarget (100 - p))] @
                  pushEffects (100 - p) (100 - p) STOPPED\<rparr>"
  using assms
  by (simp add: updateState_def protocolToHomeKit_def hasReachedTarget_def POSITION_TOLERANCE_def
      normal_forms Let_def pushEffects_def emit_def tracked_def conj_commute)

lemma updateState_moving:
  assumes "commandInProgress s" and "\<not> \<bar>100 - p - commandTarget s\<bar> \<le> 2"
  shows "updateState p s =
     (if (if commandDirection s = INCREASING then 100 - p > displayPosition s
          else 100 - p < displayPosition s)
      then s\<lparr>displayPosition := 100 - p,
             effects := effects s @ [Log Debug (GatewayReading (100 - p) True (commandTarget s)),
                          UpdateCharacteristic (CurrentPosition (100 - p)),
                          Log Debug (Progress (100 - p) (commandTarget s))]\<rparr>
      else s\<lparr>effects := effects s @ [Log Debug (GatewayReading (100 - p) True (commandTarget s))]\<rparr>)"
  using assms
  by (simp add: updateState_def protocolToHomeKit_def hasReachedTarget_def POSITION_TOLERANCE_def
      Let_def emit_def)

lemma fireTimer_not_pending:
  assumes "find (\<lambda>t. handle t = h) (timers s) = None"
  shows "fireTimer gateway h s = s"
  using assms by (simp add: fireTimer_def)

lemma fireTimer_deadline:
  assumes "find (\<lambda>t. handle t = h) (timers s) = Some t" and "callback t = CommandTimeout"
  shows "fireTimer gateway h s =
     (if commandInProgress s then
        s\<lparr>commandInProgress := False, displayPositionState := STOPPED,
          displayTargetPosition := displayPosition s, pollTimers := [],
          timers := filter (\<lambda>t. handle t \<noteq> h \<and> handle t \<notin> set (pollTimers s)) (timers s),
          effects := effects s @ [Log Warn (MovementTimeout (commandTarget s))] @
                     pushEffects (displayPosition s) (displayPosition s) STOPPED @
                     (case gateway of None \<Rightarrow> [] | Some gw \<Rightarrow> [Call CallGetStatus])\<rparr>
      else s\<lparr>timers := filter (\<lambda>t. handle t \<noteq> h) (timers s)\<rparr>)"
  using assms
  by (cases gateway)
     (simp_all add: fireTimer_def normal_forms Let_def pushEffects_def emit_def)

lemma fireTimer_other:
  assumes "find (\<lambda>t. handle t = h) (timers s) = Some t" and "callback t \<noteq> CommandTimeout"
  shows "fireTimer gateway h s =
     s\<lparr>timers := filter (\<lambda>t. handle t \<noteq> h) (timers s),
       effects := effects s @
         (case gateway of
            None \<Rightarrow> []
          | Some gw \<Rightarrow>
             if callback t = StatusAfterStop then [Call CallGetStatus]
             else if \<not> commandInProgress s then []
             else if getStatus_resolves gw then [Call CallGetStatus]
             else [Call CallGetStatus, Log Debug PollFailed])\<rparr>"
  using assms
  by (cases gateway; cases "callback t")
     (simp_all add: fireTimer_def Let_def emit_def)

lemma invariant_idle_timers:
  assumes "invariant s" and "\<not> commandInProgress s" and "t \<in> set (timers s)"
  shows "callback t = StatusAfterStop"
  using assms unfolding invariant_def by (cases "callback t") auto

lemma invariant_start:
  assumes inv: "invariant s" and d: "dir \<noteq> STOPPED"
  shows "invariant
     (s\<lparr>commandInProgress := True, commandDirection := dir,
        commandTimeoutTimer := Some (nextHandle s),
        pollTimers := map handle (tickTimers ivs c (Suc (nextHandle s))),
        timers := filter (\<lambda>t. \<not> tracked s t) (timers s)
                    @ [Timer (nextHandle s) MAX_MOVEMENT_TIMEOUT CommandTimeout]
                    @ tickTimers ivs c (Suc (nextHandle s)),
        nextHandle := Suc (nextHandle s) + length ivs\<rparr>)"
proof -
  have untracked: "\<And>t. t \<in> set (timers s) \<Longrightarrow> \<not> tracked s t \<Longrightarrow> callback t = StatusAfterStop"
    using invariant_tracked_handles [OF inv] by (auto simp: tracked_def)
  from inv have fresh: "\<And>t. t \<in> set (timers s) \<Longrightarrow> handle t < nextHandle s"
    and dist: "distinct (map handle (timers s))" by (simp_all add: invariant_def)
  have ticks: "\<And>t. t \<in> set (tickTimers ivs c (Suc (nextHandle s))) \<Longrightarrow>
      Suc (nextHandle s) \<le> handle t \<and> handle t < Suc (nextHandle s) + length ivs \<and> callback t = PollTick"
    by (auto dest: tickTimers_handle tickTimers_callback)
  show ?thesis
    unfolding invariant_def
    apply (simp add: distinct_map_filter dist tickTimers_distinct d)
    apply (intro conjI ballI impI allI)
    using fresh ticks untracked
    apply (fastforce simp: less_Suc_eq)+
    done
qed

lemma invariant_setTargetPosition:
  assumes inv: "invariant s"
  shows "invariant (snd (setTargetPosition gateway target s))"
proof (cases gateway)
  case None
  with inv show ?thesis by (simp add: setTargetPosition_None)
next
  case (Some gw)
  let ?cur = "if commandInProgress s then displayPosition s else confirmedPosition s"
  have untracked: "\<forall>t\<in>set (timers s). \<not> tracked s t \<longrightarrow> callback t = StatusAfterStop"
    using invariant_tracked_handles [OF inv] by (auto simp: tracked_def)
  from inv have fresh: "\<forall>t\<in>set (timers s). handle t < nextHandle s"
    "\<forall>h\<in>set (pollTimers s). h < nextHandle s" by (simp_all add: invariant_def)
  show ?thesis
  proof (cases "\<bar>target - ?cur\<bar> \<le> 2")
    case near: True
    show ?thesis
    proof (cases "commandInProgress s")
      case True
      have "invariant (s\<lparr>commandInProgress := False, commandTimeoutTimer := None, pollTimers := [],
              timers := filter (\<lambda>t. \<not> tracked s t) (timers s), nextHandle := nextHandle s\<rparr>)"
        by (rule invariant_idle [OF inv untracked]) simp_all
      then show ?thesis
        using True near Some
        apply (simp add: setTargetPosition_stop)
        apply (simp add: invariant_def distinct_map_filter)
        apply (auto simp: less_Suc_eq)
        done
    next
      case False
      with near Some inv show ?thesis by (simp add: setTargetPosition_noop)
    qed
  next
    case far: False
    define dir where "dir = (if target > ?cur then INCREASING else DECREASING)"
    have d: "dir \<noteq> STOPPED" by (simp add: dir_def)
    show ?thesis
    proof (cases "setPosition_resolves gw")
      case True
      from fresh have "nextHandle s \<notin> set (pollTimers s)" by auto
      from setTargetPosition_start_ok [OF far True this dir_def] Some
      have "invariant (snd (setTargetPosition gateway target s)) =
            invariant (s\<lparr>commandInProgress := True, commandDirection := dir,
              commandTimeoutTimer := Some (nextHandle s),
              pollTimers := map handle (tickTimers POLL_INTERVALS 0 (Suc (nextHandle s))),
              timers := filter (\<lambda>t. \<not> tracked s t) (timers s)
                          @ [Timer (nextHandle s) MAX_MOVEMENT_TIMEOUT CommandTimeout]
                          @ tickTimers POLL_INTERVALS 0 (Suc (nextHandle s)),
              nextHandle := Suc (nextHandle s) + length POLL_INTERVALS\<rparr>)"
        by (intro invariant_cong) simp_all
      with invariant_start [OF inv d] show ?thesis by simp
    next
      case False
      let ?P = "\<lambda>t. handle t \<noteq> nextHandle s \<and> Some (handle t) \<noteq> commandTimeoutTimer s \<and>
                     (commandInProgress s \<longrightarrow> handle t \<notin> set (pollTimers s))"
      have P: "\<forall>t\<in>set (timers s). ?P t \<longrightarrow> callback t = StatusAfterStop"
        using untracked invariant_idle_timers [OF inv] by (auto simp: tracked_def)
      have "invariant (s\<lparr>commandInProgress := False, commandTimeoutTimer := None,
              pollTimers := (if commandInProgress s then [] else pollTimers s),
              timers := filter ?P (timers s), nextHandle := Suc (nextHandle s)\<rparr>)"
        by (rule invariant_idle [OF inv P]) (use fresh in \<open>auto simp: less_Suc_eq\<close>)
      moreover from setTargetPosition_start_fail [OF far False dir_def] Some
      have "invariant (snd (setTargetPosition gateway target s)) =
            invariant (s\<lparr>commandInProgress := False, commandTimeoutTimer := None,
              pollTimers := (if commandInProgress s then [] else pollTimers s),
              timers := filter ?P (timers s), nextHandle := Suc (nextHandle s)\<rparr>)"
        by (simp add: invariant_def)
      ultimately show ?thesis by simp
    qed
  qed
qed

lemma invariant_fireTimer:
  assumes inv: "invariant s"
  shows "invariant (fireTimer gateway h s)"
proof (cases "find (\<lambda>t. handle t = h) (timers s)")
  case None
  with inv show ?thesis by (simp add: fireTimer_not_pending)
next
  case (Some t)
  then have t: "t \<in> set (timers s)" "handle t = h" by (auto dest: find_handle)
  show ?thesis
  proof (cases "callback t = CommandTimeout")
    case True
    with inv t have cip: "commandInProgress s" and ctt: "commandTimeoutTimer s = Some h"
      by (auto simp: invariant_def)
    let ?P = "\<lambda>t. handle t \<noteq> h \<and> handle t \<notin> set (pollTimers s)"
    have P: "\<forall>t\<in>set (timers s). ?P t \<longrightarrow> callback t = StatusAfterStop"
      using invariant_tracked_handles [OF inv] ctt by auto
    from inv ctt have "h < nextHandle s" by (simp add: invariant_def)
    then have "invariant (s\<lparr>commandInProgress := False, commandTimeoutTimer := Some h, pollTimers := [],
              timers := filter ?P (timers s), nextHandle := nextHandle s\<rparr>)"
      by (intro invariant_idle [OF inv P]) simp_all
    moreover have "invariant (fireTimer gateway h s) =
        invariant (s\<lparr>commandInProgress := False, commandTimeoutTimer := Some h, pollTimers := [],
              timers := filter ?P (timers s), nextHandle := nextHandle s\<rparr>)"
      by (intro invariant_cong) (simp_all add: fireTimer_deadline [OF Some True] cip ctt)
    ultimately show ?thesis by simp
  next
    case False
    have "invariant (fireTimer gateway h s) =
        invariant (s\<lparr>timers := filter (\<lambda>u. handle u \<noteq> handle t) (timers s)\<rparr>)"
      by (intro invariant_cong) (simp_all add: fireTimer_other [OF Some False] t)
    with invariant_remove_other [OF inv t(1) False] show ?thesis by simp
  qed
qed

lemma invariant_step: "invariant s \<Longrightarrow> invariant (step ev s)"
  by (cases ev) (simp_all add: invariant_setTargetPosition invariant_updateState invariant_fireTimer)

lemma invariant_run: "invariant s \<Longrightarrow> invariant (run evs s)"
  unfolding run_def by (induction evs arbitrary: s) (simp_all add: invariant_step)

lemma invariant_reachable: "invariant (run evs initial)"
  by (rule invariant_run [OF invariant_initial])

lemma run_Nil [simp]: "run [] s = s"
  by (simp add: run_def)

lemma run_Cons [simp]: "run (ev # evs) s = run evs (step ev s)"
  by (simp add: run_def)

lemma run_append: "run (xs @ ys) s = run ys (run xs s)"
  by (simp add: run_def)


lemmas branch_eqs =
  setTargetPosition_None setTargetPosition_stop setTargetPosition_noop
  setTargetPosition_start_ok [OF _ _ _ refl] setTargetPosition_start_fail [OF _ _ refl]
  updateState_idle updateState_complete updateState_moving

lemma setTargetPosition_displayPosition:
  "displayPosition (snd (setTargetPosition gateway target s)) = displayPosition s"
  by (cases gateway)
     (simp_all add: setTargetPosition_def normal_forms Let_def setTimeout_def split_def)

lemma fireTimer_displayPosition:
  "displayPosition (fireTimer gateway h s) = displayPosition s"
proof (cases "find (\<lambda>t. handle t = h) (timers s)")
  case None
  then show ?thesis by (simp add: fireTimer_not_pending)
next
  case (Some t)
  show ?thesis
    by (cases "callback t = CommandTimeout")
       (simp_all add: fireTimer_deadline [OF Some] fireTimer_other [OF Some])
qed

lemma updateState_displayPosition:
  "displayPosition (updateState p s) = displayPosition s \<or>
   displayPosition (updateState p s) = 100 - p"
  by (simp add: updateState_def protocolToHomeKit_def normal_forms Let_def)



lemma find_distinct_handle:
  assumes "distinct (map handle ts)" and "t \<in> set ts"
  shows "find (\<lambda>u. handle u = handle t) ts = Some t"
  using assms by (induction ts) force+

lemma find_filter_None: "find (\<lambda>t. handle t = h) (filter (\<lambda>t. handle t \<noteq> h \<and> Q t) ts) = None"
  by (induction ts) simp_all

lemma moving_step:
  assumes inv: "invariant s" and cip: "commandInProgress s"
    and ctt: "commandTimeoutTimer s = Some n"
    and ev: "case ev of
               SetTarget g t \<Rightarrow> False
             | StatusReading p \<Rightarrow> \<not> hasReachedTarget s (protocolToHomeKit p)
             | TimerFires g h \<Rightarrow> h \<noteq> n"
  shows "invariant (step ev s) \<and> commandInProgress (step ev s) \<and>
         commandTimeoutTimer (step ev s) = Some n \<and> commandTarget (step ev s) = commandTarget s"
proof (cases ev)
  case (SetTarget g t)
  with ev show ?thesis by simp
next
  case (StatusReading p)
  with ev have far: "\<not> \<bar>100 - p - commandTarget s\<bar> \<le> 2"
    by (simp add: hasReachedTarget_def protocolToHomeKit_def POSITION_TOLERANCE_def)
  from invariant_updateState [OF inv, of p] cip ctt StatusReading show ?thesis
    by (simp add: updateState_moving [OF cip far])
next
  case (TimerFires g h)
  with ev have h: "h \<noteq> n" by simp
  have i: "invariant (fireTimer g h s)" by (rule invariant_fireTimer [OF inv])
  show ?thesis
  proof (cases "find (\<lambda>t. handle t = h) (timers s)")
    case None
    with inv cip ctt TimerFires show ?thesis by (simp add: fireTimer_not_pending)
  next
    case (Some t)
    then have t: "t \<in> set (timers s)" "handle t = h" by (auto dest: find_handle)
    have other: "callback t \<noteq> CommandTimeout"
    proof
      assume "callback t = CommandTimeout"
      with inv t(1) have "commandTimeoutTimer s = Some (handle t)" by (simp add: invariant_def)
      with ctt t(2) h show False by simp
    qed
    from i cip ctt TimerFires show ?thesis
      by (simp add: fireTimer_other [OF Some other])
  qed
qed

lemma moving_run:
  assumes "invariant s" and "commandInProgress s" and "commandTimeoutTimer s = Some n"
    and "\<forall>ev\<in>set evs. case ev of
               SetTarget g t \<Rightarrow> False
             | StatusReading p \<Rightarrow> \<not> \<bar>protocolToHomeKit p - commandTarget s\<bar> \<le> POSITION_TOLERANCE
             | TimerFires g h \<Rightarrow> h \<noteq> n"
  shows "invariant (run evs s) \<and> commandInProgress (run evs s) \<and>
         commandTimeoutTimer (run evs s) = Some n \<and> commandTarget (run evs s) = commandTarget s"
  using assms
proof (induction evs arbitrary: s)
  case Nil
  then show ?case by simp
next
  case (Cons ev evs)
  from Cons.prems(4) have "case ev of
               SetTarget g t \<Rightarrow> False
             | StatusReading p \<Rightarrow> \<not> hasReachedTarget s (protocolToHomeKit p)
             | TimerFires g h \<Rightarrow> h \<noteq> n"
    by (cases ev) (simp_all add: hasReachedTarget_def)
  from moving_step [OF Cons.prems(1-3) this]
  have 1: "invariant (step ev s)" "commandInProgress (step ev s)"
    "commandTimeoutTimer (step ev s) = Some n" "commandTarget (step ev s) = commandTarget s"
    by simp_all
  have "\<forall>e\<in>set evs. case e of
               SetTarget g t \<Rightarrow> False
             | StatusReading p \<Rightarrow> \<not> \<bar>protocolToHomeKit p - commandTarget (step ev s)\<bar> \<le> POSITION_TOLERANCE
             | TimerFires g h \<Rightarrow> h \<noteq> n"
    unfolding 1(4) using Cons.prems(4) by simp
  from Cons.IH [OF 1(1-3) this] 1(4) show ?case by simp
qed

lemma deadline_pending:
  assumes inv: "invariant s" and cip: "commandInProgress s" and ctt: "commandTimeoutTimer s = Some n"
  shows "find (\<lambda>t. handle t = n) (timers s) = Some (Timer n MAX_MOVEMENT_TIMEOUT CommandTimeout)"
proof -
  from inv cip obtain t where t: "t \<in> set (timers s)" "callback t = CommandTimeout"
    by (auto simp: invariant_def)
  with inv ctt have "handle t = n" "delay t = MAX_MOVEMENT_TIMEOUT" by (auto simp: invariant_def)
  with t(2) have eq: "t = Timer n MAX_MOVEMENT_TIMEOUT CommandTimeout" by (cases t) simp
  from inv have "distinct (map handle (timers s))" by (simp add: invariant_def)
  from find_distinct_handle [OF this t(1)] eq show ?thesis by simp
qed

section \<open>Hexadecimal rendering and padding\<close>

lemma below_16:
  assumes "d < (16::nat)"
  shows "d = 0 \<or> d = 1 \<or> d = 2 \<or> d = 3 \<or> d = 4 \<or> d = 5 \<or> d = 6 \<or> d = 7 \<or>
         d = 8 \<or> d = 9 \<or> d = 10 \<or> d = 11 \<or> d = 12 \<or> d = 13 \<or> d = 14 \<or> d = 15"
  using assms by arith

lemma hexValue_upper:
  assumes "d < 16"
  shows "hexValue (upperChar (hexDigit d)) = d"
  using below_16 [OF assms]
  by (elim disjE) (simp_all add: hexValue_def upperChar_def hexDigit_def)

lemma upper_hexDigit_range:
  assumes "d < 16"
  shows "upperChar (hexDigit d) \<in> set ''0123456789ABCDEF''"
  using below_16 [OF assms]
  by (elim disjE) (simp_all add: upperChar_def hexDigit_def char_of_eq_iff take_bit_eq_mod)

lemma unat_byte_div: "unat (b :: byte) div 16 < 16"
proof -
  have "unat b < 2 ^ 8" using unsigned_less [of b, where ?'a = nat] by simp
  then show ?thesis by simp
qed

lemma hexByte_value:
  "16 * hexValue (hexByte b ! 0) + hexValue (hexByte b ! 1) = unat b"
  by (simp add: hexByte_def hexValue_upper unat_byte_div)

lemma hexByte_inj:
  assumes "hexByte a = hexByte b"
  shows "a = b"
proof -
  from assms hexByte_value [of a] hexByte_value [of b] have "unat a = unat b" by simp
  then show ?thesis by (simp add: word_unat_eq_iff)
qed

lemma upper_hex_Nil [simp]: "toUpperCase (toString_hex []) = []"
  by (simp add: toUpperCase_def toString_hex_def)

lemma upper_hex_Cons [simp]:
  "toUpperCase (toString_hex (b # bs)) = hexByte b @ toUpperCase (toString_hex bs)"
  by (simp add: toUpperCase_def toString_hex_def hexByte_def)

lemma upper_hex_inj:
  "toUpperCase (toString_hex xs) = toUpperCase (toString_hex ys) \<Longrightarrow> xs = ys"
proof (induction xs arbitrary: ys)
  case Nil
  then show ?case by (cases ys) (simp_all add: hexByte_def)
next
  case (Cons x xs)
  show ?case
  proof (cases ys)
    case Nil
    with Cons.prems show ?thesis by (simp add: hexByte_def)
  next
    case (Cons y ys')
    with Cons.prems have "hexByte x @ toUpperCase (toString_hex xs) =
        hexByte y @ toUpperCase (toString_hex ys')" by simp
    moreover have "length (hexByte x) = length (hexByte y)" by (simp add: hexByte_def)
    ultimately have "hexByte x = hexByte y" "toUpperCase (toString_hex xs) = toUpperCase (toString_hex ys')"
      by simp_all
    with Cons.IH Cons show ?thesis by (simp add: hexByte_inj)
  qed
qed

lemma upper_hex_length: "length (toUpperCase (toString_hex bs)) = 2 * length bs"
  by (induction bs) (simp_all add: hexByte_def)

lemma upper_hex_range: "set (toUpperCase (toString_hex bs)) \<subseteq> set ''0123456789ABCDEF''"
proof (induction bs)
  case Nil
  show ?case by simp
next
  case (Cons b bs)
  have "unat b mod 16 < 16" by simp
  from upper_hexDigit_range [OF this] upper_hexDigit_range [OF unat_byte_div [of b]] Cons.IH
  show ?case by (simp add: hexByte_def)
qed

lemma copy_alloc: "copy source (Buffer_alloc n) = take n source @ replicate (n - length source) 0"
  by (simp add: copy_def Buffer_alloc_def)

lemma paddedKey_eq: "paddedKey key = take 16 (Buffer_from key) @ replicate (16 - length key) 0"
  by (simp add: paddedKey_def copy_alloc subarray_def Buffer_from_def min_def)

lemma paddedToken_eq: "paddedToken token = take 16 (Buffer_from token) @ replicate (16 - length token) 0"
  by (simp add: paddedToken_def copy_alloc Buffer_from_def)

lemma padded_length: "length (paddedKey key) = 16" "length (paddedToken token) = 16"
  by (simp_all add: paddedKey_eq paddedToken_eq Buffer_from_def)

section \<open>Properties of the accessory\<close>

text \<open>
  C1. As long as every status reading carries a protocol position in [0,100], the
  displayed position stays in [0,100] through every sequence of set-target requests (of
  any value and with any outcome at the gateway), status readings and timer firings,
  from every accessory state whose displayed position is in [0,100], the initial one
  among them. The accessory itself does not clamp what a reading carries.
\<close>

theorem displayPosition_in_range:
  assumes "0 \<le> displayPosition s \<and> displayPosition s \<le> 100"
    and "\<forall>ev\<in>set evs. \<forall>p. ev = StatusReading p \<longrightarrow> 0 \<le> p \<and> p \<le> 100"
  shows "0 \<le> displayPosition (run evs s) \<and> displayPosition (run evs s) \<le> 100"
  using assms
proof (induction evs arbitrary: s)
  case Nil
  then show ?case by simp
next
  case (Cons ev evs)
  have "0 \<le> displayPosition (step ev s) \<and> displayPosition (step ev s) \<le> 100"
  proof (cases ev)
    case (SetTarget gateway target)
    with Cons.prems(1) show ?thesis by (simp add: setTargetPosition_displayPosition)
  next
    case (StatusReading p)
    with Cons.prems(2) have "0 \<le> p \<and> p \<le> 100" by simp
    with Cons.prems(1) updateState_displayPosition [of p s] StatusReading
    show ?thesis by auto
  next
    case (TimerFires gateway h)
    with Cons.prems(1) show ?thesis by (simp add: fireTimer_displayPosition)
  qed
  moreover from Cons.prems(2)
  have "\<forall>ev\<in>set evs. \<forall>p. ev = StatusReading p \<longrightarrow> 0 \<le> p \<and> p \<le> 100" by simp
  ultimately show ?case using Cons.IH by simp
qed

theorem displayPosition_in_range_witness:
  "0 \<le> displayPosition (run [SetTarget (Some all_resolve) 250,
        StatusReading 70, StatusReading 100, TimerFires None 0, StatusReading 0] initial) \<and>
   displayPosition (run [SetTarget (Some all_resolve) 250,
        StatusReading 70, StatusReading 100, TimerFires None 0, StatusReading 0] initial) \<le> 100"
  using displayPosition_in_range [of initial "[SetTarget (Some all_resolve) 250,
        StatusReading 70, StatusReading 100, TimerFires None 0, StatusReading 0]"]
  by (simp add: initial_def)

text \<open>
  Counterexample to C1 as stated. A reading with protocol position 150, received with
  no command in progress, sets the displayed position to -50; a reading with protocol
  position -20, received while moving up to 50, is taken as progress and sets it to 120.
\<close>

theorem displayPosition_unclamped:
  "displayPosition (run [StatusReading 150] initial) = - 50 \<and>
   \<not> (0 \<le> displayPosition (run [StatusReading 150] initial) \<and>
       displayPosition (run [StatusReading 150] initial) \<le> 100) \<and>
   displayPosition (run [SetTarget (Some all_resolve) 50,
        StatusReading (- 20)] initial) = 120"
  by (simp add: branch_eqs initial_def)





text \<open>
  C4. In a reachable state with a command in progress, whose direction is then
  increasing or decreasing, a status reading that is not within the tolerance of the
  target replaces the displayed position exactly when it is strictly greater (direction
  increasing) or strictly less (direction decreasing) than the displayed position.
  Otherwise the displayed position stays. In both cases motion state, displayed target,
  confirmed position, the command and the timers stay as they are.
\<close>

theorem progress_filter_while_moving:
  assumes "s = run evs initial"
    and "commandInProgress s"
    and "\<not> hasReachedTarget s (protocolToHomeKit p)"
  shows "(commandDirection s = INCREASING \<or> commandDirection s = DECREASING) \<and>
         displayPosition (updateState p s) =
           (if commandDirection s = INCREASING \<and> protocolToHomeKit p > displayPosition s \<or>
               commandDirection s = DECREASING \<and> protocolToHomeKit p < displayPosition s
            then protocolToHomeKit p else displayPosition s) \<and>
         displayPositionState (updateState p s) = displayPositionState s \<and>
         displayTargetPosition (updateState p s) = displayTargetPosition s \<and>
         confirmedPosition (updateState p s) = confirmedPosition s \<and>
         commandInProgress (updateState p s) \<and>
         commandTarget (updateState p s) = commandTarget s \<and>
         commandDirection (updateState p s) = commandDirection s \<and>
         timers (updateState p s) = timers s"
proof -
  from assms(1) have "invariant s" by (simp add: invariant_reachable)
  with assms(2) have "commandDirection s \<noteq> STOPPED" by (simp add: invariant_def)
  then have dir: "commandDirection s = INCREASING \<or> commandDirection s = DECREASING"
    by (cases "commandDirection s") simp_all
  from assms(3) have far: "\<not> \<bar>100 - p - commandTarget s\<bar> \<le> 2"
    by (simp add: hasReachedTarget_def protocolToHomeKit_def POSITION_TOLERANCE_def)
  from dir assms(2) show ?thesis
    by (auto simp: updateState_moving [OF assms(2) far] protocolToHomeKit_def)
qed

theorem progress_filter_while_moving_witness:
  "displayPosition (updateState 70 (run [SetTarget (Some all_resolve) 100] initial)) = 30 \<and>
   displayPosition (updateState 100 (run [SetTarget (Some all_resolve) 100, StatusReading 70] initial)) = 30 \<and>
   displayPosition (updateState 70 (run [SetTarget (Some all_resolve) 100, StatusReading 70] initial)) = 30 \<and>
   displayPositionState (updateState 100 (run [SetTarget (Some all_resolve) 100, StatusReading 70] initial)) = INCREASING \<and>
   displayPosition (updateState 60 (run [StatusReading 20, SetTarget (Some all_resolve) 0, StatusReading 50] initial)) = 40 \<and>
   displayPosition (updateState 40 (run [StatusReading 20, SetTarget (Some all_resolve) 0, StatusReading 50] initial)) = 50"
  using progress_filter_while_moving [of "run [SetTarget (Some all_resolve) 100] initial" "[SetTarget (Some all_resolve) 100]" 70]
    progress_filter_while_moving [of "run [SetTarget (Some all_resolve) 100, StatusReading 70] initial" "[SetTarget (Some all_resolve) 100, StatusReading 70]" 100]
    progress_filter_while_moving [of "run [SetTarget (Some all_resolve) 100, StatusReading 70] initial" "[SetTarget (Some all_resolve) 100, StatusReading 70]" 70]
    progress_filter_while_moving [of "run [StatusReading 20, SetTarget (Some all_resolve) 0, StatusReading 50] initial" "[StatusReading 20, SetTarget (Some all_resolve) 0, StatusReading 50]" 60]
    progress_filter_while_moving [of "run [StatusReading 20, SetTarget (Some all_resolve) 0, StatusReading 50] initial" "[StatusReading 20, SetTarget (Some all_resolve) 0, StatusReading 50]" 40]
  by (simp add: branch_eqs initial_def hasReachedTarget_def protocolToHomeKit_def POSITION_TOLERANCE_def)

text \<open>
  C5. A set-target request that starts a movement in a reachable state arms a timer of
  90000 ms for the deadline, and the accessory holds its handle. Through every sequence
  of status readings that are not within the tolerance of the target and of firings of
  other timers, the command stays in progress and the deadline stays pending. When the
  deadline then fires, the accessory is idle: motion state stopped, displayed target
  pinned to the displayed position, displayed and confirmed position unchanged, no poll
  handle held and no deadline or poll timer pending; the effects of the firing are the
  warning, the push of the three characteristics and one call of \<open>getStatus\<close>. The
  deadline cannot fire a second time.
\<close>

theorem movement_deadline:
  assumes "s0 = run evs initial"
    and "\<not> \<bar>target - (if commandInProgress s0 then displayPosition s0 else confirmedPosition s0)\<bar>
           \<le> POSITION_TOLERANCE"
    and "setPosition_resolves gw"
    and "s1 = snd (setTargetPosition (Some gw) target s0)"
    and "\<forall>ev\<in>set mid. case ev of
               SetTarget g t \<Rightarrow> False
             | StatusReading p \<Rightarrow> \<not> \<bar>protocolToHomeKit p - target\<bar> \<le> POSITION_TOLERANCE
             | TimerFires g h \<Rightarrow> h \<noteq> nextHandle s0"
    and "s2 = run mid s1"
    and "s3 = fireTimer (Some gw') (nextHandle s0) s2"
  shows "commandInProgress s2 \<and> commandTarget s2 = target \<and>
         commandTimeoutTimer s2 = Some (nextHandle s0) \<and>
         Timer (nextHandle s0) 90000 CommandTimeout \<in> set (timers s2) \<and>
         \<not> commandInProgress s3 \<and>
         displayPositionState s3 = STOPPED \<and>
         displayTargetPosition s3 = displayPosition s2 \<and>
         displayPosition s3 = displayPosition s2 \<and>
         confirmedPosition s3 = confirmedPosition s2 \<and>
         pollTimers s3 = [] \<and>
         (\<forall>t\<in>set (timers s3). callback t = StatusAfterStop) \<and>
         effects s3 = effects s2 @
           [Log Warn (MovementTimeout target),
            UpdateCharacteristic (CurrentPosition (displayPosition s2)),
            UpdateCharacteristic (TargetPosition (displayPosition s2)),
            UpdateCharacteristic (PositionState STOPPED),
            Call CallGetStatus] \<and>
         fireTimer (Some gw'') (nextHandle s0) s3 = s3"
proof -
  let ?n = "nextHandle s0"
  from assms(1) have inv0: "invariant s0" by (simp add: invariant_reachable)
  from assms(2) have far:
    "\<not> \<bar>target - (if commandInProgress s0 then displayPosition s0 else confirmedPosition s0)\<bar> \<le> 2"
    by (simp add: POSITION_TOLERANCE_def)
  from inv0 have "\<forall>h\<in>set (pollTimers s0). h < ?n" by (simp add: invariant_def)
  then have fresh: "?n \<notin> set (pollTimers s0)" by auto
  note eq = setTargetPosition_start_ok [OF far assms(3) fresh refl]
  have inv1: "invariant s1" unfolding assms(4) by (rule invariant_setTargetPosition [OF inv0])
  have s1: "commandInProgress s1" "commandTimeoutTimer s1 = Some ?n" "commandTarget s1 = target"
    by (simp_all add: assms(4) eq)
  have mid: "\<forall>ev\<in>set mid. case ev of
               SetTarget g t \<Rightarrow> False
             | StatusReading p \<Rightarrow> \<not> \<bar>protocolToHomeKit p - commandTarget s1\<bar> \<le> POSITION_TOLERANCE
             | TimerFires g h \<Rightarrow> h \<noteq> ?n"
    unfolding s1(3) by (rule assms(5))
  from moving_run [OF inv1 s1(1,2) mid] s1(3)
  have s2: "invariant s2" "commandInProgress s2" "commandTimeoutTimer s2 = Some ?n"
    "commandTarget s2 = target"
    by (simp_all add: assms(6))
  note f = deadline_pending [OF s2(1-3)]
  then have pend: "Timer ?n 90000 CommandTimeout \<in> set (timers s2)"
    by (auto dest: find_handle simp: MAX_MOVEMENT_TIMEOUT_def)
  note fire = fireTimer_deadline [OF f, of "Some gw'"]
  have idle3: "\<not> commandInProgress s3" by (simp add: assms(7) fire s2(2))
  have "invariant s3" unfolding assms(7) by (rule invariant_fireTimer [OF s2(1)])
  then have pending3: "\<forall>t\<in>set (timers s3). callback t = StatusAfterStop"
    using invariant_idle_timers idle3 by blast
  have fields: "displayPositionState s3 = STOPPED \<and>
         displayTargetPosition s3 = displayPosition s2 \<and>
         displayPosition s3 = displayPosition s2 \<and>
         confirmedPosition s3 = confirmedPosition s2 \<and>
         pollTimers s3 = [] \<and>
         effects s3 = effects s2 @
           [Log Warn (MovementTimeout target),
            UpdateCharacteristic (CurrentPosition (displayPosition s2)),
            UpdateCharacteristic (TargetPosition (displayPosition s2)),
            UpdateCharacteristic (PositionState STOPPED),
            Call CallGetStatus]"
    by (simp add: assms(7) fire s2(2,4) pushEffects_def)
  have "find (\<lambda>t. handle t = ?n) (timers s3) = None"
    by (simp add: assms(7) fire s2(2) find_filter_None)
  then have again: "fireTimer (Some gw'') ?n s3 = s3" by (rule fireTimer_not_pending)
  from s2(2-4) pend idle3 pending3 fields again show ?thesis by (simp only: simp_thms)
qed

theorem movement_deadline_witness:
  "commandInProgress (run [StatusReading 70, TimerFires (Some all_resolve) 1, StatusReading 100, TimerFires None 2]
      (snd (setTargetPosition (Some all_resolve) 100 initial))) \<and>
   displayPosition (run [StatusReading 70, TimerFires (Some all_resolve) 1, StatusReading 100, TimerFires None 2]
      (snd (setTargetPosition (Some all_resolve) 100 initial))) = 30 \<and>
   \<not> commandInProgress (fireTimer (Some all_resolve) 0 (run [StatusReading 70, TimerFires (Some all_resolve) 1, StatusReading 100, TimerFires None 2]
      (snd (setTargetPosition (Some all_resolve) 100 initial)))) \<and>
   displayTargetPosition (fireTimer (Some all_resolve) 0 (run [StatusReading 70, TimerFires (Some all_resolve) 1, StatusReading 100, TimerFires None 2]
      (snd (setTargetPosition (Some all_resolve) 100 initial)))) = 30 \<and>
   displayPosition (fireTimer (Some all_resolve) 0 (run [StatusReading 70, TimerFires (Some all_resolve) 1, StatusReading 100, TimerFires None 2]
      (snd (setTargetPosition (Some all_resolve) 100 initial)))) = 30 \<and>
   confirmedPosition (fireTimer (Some all_resolve) 0 (run [StatusReading 70, TimerFires (Some all_resolve) 1, StatusReading 100, TimerFires None 2]
      (snd (setTargetPosition (Some all_resolve) 100 initial)))) = 0 \<and>
   displayPositionState (fireTimer (Some all_resolve) 0 (run [StatusReading 70, TimerFires (Some all_resolve) 1, StatusReading 100, TimerFires None 2]
      (snd (setTargetPosition (Some all_resolve) 100 initial)))) = STOPPED"
  using movement_deadline [of initial "[]" 100 "all_resolve" "snd (setTargetPosition (Some all_resolve) 100 initial)"
      "[StatusReading 70, TimerFires (Some all_resolve) 1, StatusReading 100, TimerFires None 2]"
      "run [StatusReading 70, TimerFires (Some all_resolve) 1, StatusReading 100, TimerFires None 2]
        (snd (setTargetPosition (Some all_resolve) 100 initial))"
      "fireTimer (Some all_resolve) 0 (run [StatusReading 70, TimerFires (Some all_resolve) 1, StatusReading 100, TimerFires None 2]
        (snd (setTargetPosition (Some all_resolve) 100 initial)))" "all_resolve"]
  by (simp add: branch_eqs initial_def POSITION_TOLERANCE_def protocolToHomeKit_def fireTimer_def
      POLL_INTERVALS_def normal_forms emit_def Let_def)




text \<open>
  C9. The two position mappings undo each other, and each is the complement to 100.
\<close>

theorem position_mapping_inverse:
  "homeKitToProtocol (protocolToHomeKit x) = x \<and> protocolToHomeKit (homeKitToProtocol x) = x \<and>
   protocolToHomeKit x = 100 - x \<and> homeKitToProtocol x = 100 - x \<and>
   protocolToHomeKit x + x = 100"
  by (simp add: homeKitToProtocol_def protocolToHomeKit_def)

text \<open>
  C10. With no command in progress, a set-target request within the tolerance of the
  confirmed position returns normally, makes no call at the gateway, sets the displayed
  target to the requested value and changes nothing else but the effects (a log line
  and the push of the three characteristics). The new displayed target is within 2 of
  the confirmed position; it is within 2 of the displayed position when displayed and
  confirmed position agree.
\<close>

theorem already_at_target_request:
  assumes "\<not> commandInProgress s"
    and "\<bar>target - confirmedPosition s\<bar> \<le> POSITION_TOLERANCE"
  shows "\<exists>s'. setTargetPosition (Some gw) target s = (Inr (), s') \<and>
           displayTargetPosition s' = target \<and>
           \<bar>displayTargetPosition s' - confirmedPosition s'\<bar> \<le> 2 \<and>
           (displayPosition s = confirmedPosition s \<longrightarrow>
              \<bar>displayTargetPosition s' - displayPosition s'\<bar> \<le> 2) \<and>
           displayPosition s' = displayPosition s \<and>
           confirmedPosition s' = confirmedPosition s \<and>
           displayPositionState s' = displayPositionState s \<and>
           \<not> commandInProgress s' \<and>
           timers s' = timers s \<and>
           effects s' = effects s @
             [Log Debug AlreadyAtTarget,
              UpdateCharacteristic (CurrentPosition (displayPosition s)),
              UpdateCharacteristic (TargetPosition target),
              UpdateCharacteristic (PositionState (displayPositionState s))]"
proof -
  from assms(2) have near: "\<bar>target - confirmedPosition s\<bar> \<le> 2" by (simp add: POSITION_TOLERANCE_def)
  show ?thesis
    using assms(1) near
    by (simp add: setTargetPosition_noop [OF assms(1) near] pushEffects_def)
qed

theorem already_at_target_request_witness:
  "\<exists>s'. setTargetPosition (Some all_resolve) 42 (run [StatusReading 60] initial) = (Inr (), s') \<and>
        displayTargetPosition s' = 42 \<and> displayPosition s' = 40 \<and> confirmedPosition s' = 40 \<and>
        displayPositionState s' = STOPPED \<and>
        effects s' = effects (run [StatusReading 60] initial) @
             [Log Debug AlreadyAtTarget,
              UpdateCharacteristic (CurrentPosition 40),
              UpdateCharacteristic (TargetPosition 42),
              UpdateCharacteristic (PositionState STOPPED)]"
  using already_at_target_request [of "run [StatusReading 60] initial" 42
      "all_resolve"]
  by (simp add: branch_eqs initial_def POSITION_TOLERANCE_def)

text \<open>
  Counterexample to C10 as stated (the displayed target within 2 of the displayed
  position). After a movement deadline has fired the confirmed position is still the one from
  before the command (0) while the displayed position is the last progress (60). A request
  for 1 is then "already at target": the displayed target becomes 1, 59 away from the
  displayed position.
\<close>

theorem already_at_target_far_from_displayed:
  "\<not> commandInProgress (run [SetTarget (Some all_resolve) 100, StatusReading 40, TimerFires (Some all_resolve) 0] initial) \<and>
   confirmedPosition (run [SetTarget (Some all_resolve) 100, StatusReading 40, TimerFires (Some all_resolve) 0] initial) = 0 \<and>
   displayPosition (run [SetTarget (Some all_resolve) 100, StatusReading 40, TimerFires (Some all_resolve) 0] initial) = 60 \<and>
   fst (setTargetPosition (Some all_resolve) 1 (run [SetTarget (Some all_resolve) 100, StatusReading 40, TimerFires (Some all_resolve) 0] initial)) = Inr () \<and>
   displayTargetPosition (snd (setTargetPosition (Some all_resolve) 1
      (run [SetTarget (Some all_resolve) 100, StatusReading 40, TimerFires (Some all_resolve) 0] initial))) = 1 \<and>
   displayPosition (snd (setTargetPosition (Some all_resolve) 1
      (run [SetTarget (Some all_resolve) 100, StatusReading 40, TimerFires (Some all_resolve) 0] initial))) = 60 \<and>
   \<not> \<bar>displayTargetPosition (snd (setTargetPosition (Some all_resolve) 1
          (run [SetTarget (Some all_resolve) 100, StatusReading 40, TimerFires (Some all_resolve) 0] initial))) -
        displayPosition (snd (setTargetPosition (Some all_resolve) 1
          (run [SetTarget (Some all_resolve) 100, StatusReading 40, TimerFires (Some all_resolve) 0] initial)))\<bar> \<le> 2"
  by (simp add: branch_eqs initial_def fireTimer_deadline [where t = "Timer 0 MAX_MOVEMENT_TIMEOUT CommandTimeout"])

section \<open>Properties of the gateway client\<close>

text \<open>
  C7. The token is a function of secret and nonce: the upper-case hexadecimal rendering,
  two digits per byte, of the cipher's output for the two blocks of 16 bytes made from
  the first 16 bytes of secret and nonce, filled up with zero bytes. Two pairs get the
  same token exactly when the cipher outputs are the same. So with the same block for
  the secret and a cipher that is injective on blocks under that key, nonces with
  different blocks get different tokens.
\<close>

theorem access_token_derivation:
  "length (getAccessToken aes key token) = 2 * length (aes (paddedKey key) (paddedToken token)) \<and>
   set (getAccessToken aes key token) \<subseteq> set ''0123456789ABCDEF'' \<and>
   length (paddedKey key) = 16 \<and> length (paddedToken token) = 16 \<and>
   paddedKey key = take 16 (Buffer_from key) @ replicate (16 - length key) 0 \<and>
   paddedToken token = take 16 (Buffer_from token) @ replicate (16 - length token) 0 \<and>
   (getAccessToken aes key token = getAccessToken aes key' token' \<longleftrightarrow>
      aes (paddedKey key) (paddedToken token) = aes (paddedKey key') (paddedToken token')) \<and>
   (inj_on (aes (paddedKey key)) {block. length block = 16} \<and> paddedKey key' = paddedKey key \<and>
    paddedToken token \<noteq> paddedToken token' \<longrightarrow>
      getAccessToken aes key token \<noteq> getAccessToken aes key' token')"
proof -
  have eq: "getAccessToken aes key token = getAccessToken aes key' token' \<longleftrightarrow>
      aes (paddedKey key) (paddedToken token) = aes (paddedKey key') (paddedToken token')"
    for key token key' token'
    by (auto simp: getAccessToken_def dest: upper_hex_inj)
  have inj: "getAccessToken aes key token \<noteq> getAccessToken aes key' token'"
    if "inj_on (aes (paddedKey key)) {block. length block = 16}" "paddedKey key' = paddedKey key"
      "paddedToken token \<noteq> paddedToken token'"
  proof
    assume "getAccessToken aes key token = getAccessToken aes key' token'"
    with that(2) have "aes (paddedKey key) (paddedToken token) = aes (paddedKey key) (paddedToken token')"
      by (simp add: eq)
    with that(1) have "paddedToken token = paddedToken token'"
      by (auto dest!: inj_onD simp: padded_length)
    with that(3) show False by simp
  qed
  have len: "length (getAccessToken aes key token) = 2 * length (aes (paddedKey key) (paddedToken token))"
    by (simp add: getAccessToken_def upper_hex_length)
  have range: "set (getAccessToken aes key token) \<subseteq> set ''0123456789ABCDEF''"
    unfolding getAccessToken_def Let_def by (rule upper_hex_range)
  from len range padded_length [of key] padded_length [of token] paddedKey_eq [of key]
    paddedToken_eq [of token] eq [of key token key' token'] inj
  show ?thesis by blast
qed

theorem access_token_derivation_witness:
  "getAccessToken (\<lambda>key block. block) ''secret'' ''0123456789abcdef'' \<noteq>
   getAccessToken (\<lambda>key block. block) ''secret'' ''0123456789abcdeX'' \<and>
   length (getAccessToken (\<lambda>key block. block) ''secret'' ''0123456789abcdef'') = 32"
  using access_token_derivation [of "\<lambda>key block. block" "''secret''" "''0123456789abcdef''" "''secret''" "''0123456789abcdeX''"]
  by (simp add: paddedToken_eq Buffer_from_def)

text \<open>
  Counterexample to C7 as stated (different inputs, different tokens). Two secrets, and
  two nonces, that differ in their 17th byte only have the same block, hence the same
  token whatever the cipher.
\<close>

theorem access_token_collision:
  "''0123456789abcdefX'' \<noteq> ''0123456789abcdefY'' \<and>
   paddedKey ''0123456789abcdefX'' = paddedKey ''0123456789abcdefY'' \<and>
   paddedToken ''0123456789abcdefX'' = paddedToken ''0123456789abcdefY'' \<and>
   (\<forall>aes. getAccessToken aes ''0123456789abcdefX'' ''nonce'' =
          getAccessToken aes ''0123456789abcdefY'' ''nonce'') \<and>
   (\<forall>aes. getAccessToken aes ''secret'' ''0123456789abcdefX'' =
          getAccessToken aes ''secret'' ''0123456789abcdefY'')"
  by (simp add: getAccessToken_def paddedKey_eq paddedToken_eq Buffer_from_def)

text \<open>
  C8. Whatever target position \<open>setPosition\<close> is given, a message it transmits carries
  \<open>max 0 (min 100 position)\<close>, which lies in [0,100] and is the input itself when the
  input already lies in [0,100]; the same holds for \<open>writeDevice\<close> with any operation.
\<close>

theorem setPosition_clamps:
  "(setPosition gw newMsgID m position = Inr message \<longrightarrow>
      (\<exists>d p. data message = Some d \<and> targetPosition d = Some p \<and> operation d = Close \<and>
             p = max 0 (min 100 position) \<and> 0 \<le> p \<and> p \<le> 100 \<and>
             (0 \<le> position \<and> position \<le> 100 \<longrightarrow> p = position))) \<and>
   (writeDevice gw newMsgID m op (Some position) dt = Inr message \<longrightarrow>
      (\<exists>d p. data message = Some d \<and> targetPosition d = Some p \<and>
             p = max 0 (min 100 position) \<and> 0 \<le> p \<and> p \<le> 100 \<and>
             (0 \<le> position \<and> position \<le> 100 \<longrightarrow> p = position))) \<and>
   (socket gw \<and> isConnected gw \<longrightarrow> (\<exists>message'. setPosition gw newMsgID m position = Inr message'))"
  by (auto simp: setPosition_def writeDevice_def send_def Let_def split: if_splits)

theorem setPosition_clamps_witness:
  "(\<exists>message. setPosition \<lparr>socket = True, isConnected = True, accessToken = ''T''\<rparr> ''01'' ''aa'' 150 = Inr message \<and>
      data message = Some \<lparr>operation = Close, targetPosition = Some 100\<rparr>) \<and>
   (\<exists>message. setPosition \<lparr>socket = True, isConnected = True, accessToken = ''T''\<rparr> ''01'' ''aa'' (- 5) = Inr message \<and>
      data message = Some \<lparr>operation = Close, targetPosition = Some 0\<rparr>) \<and>
   (\<exists>message. setPosition \<lparr>socket = True, isConnected = True, accessToken = ''T''\<rparr> ''01'' ''aa'' 37 = Inr message \<and>
      data message = Some \<lparr>operation = Close, targetPosition = Some 37\<rparr>)"
  using setPosition_clamps [of "\<lparr>socket = True, isConnected = True, accessToken = ''T''\<rparr>" "''01''" "''aa''" 150]
    setPosition_clamps [of "\<lparr>socket = True, isConnected = True, accessToken = ''T''\<rparr>" "''01''" "''aa''" "- 5"]
    setPosition_clamps [of "\<lparr>socket = True, isConnected = True, accessToken = ''T''\<rparr>" "''01''" "''aa''" 37]
  by (simp add: setPosition_def writeDevice_def send_def default_deviceType_def)

end
